theory Spec2Isabelle
  imports Complex_Main
begin

section \<open>The Oanda v20 store of btoandav20\<close>

text \<open>
  A shallow embedding of \<^verbatim>\<open>btoandav20/stores/oandav20store.py\<close>: the class
  \<^verbatim>\<open>OandaV20Store\<close> and its metaclass \<^verbatim>\<open>MetaSingleton\<close>. A method
  that mutates \<^verbatim>\<open>self\<close> takes the store and returns the updated one; a method that
  raises returns \<open>Inl\<close> of the exception. Python attribute names that start with an
  underscore are written with the prefix \<open>u_\<close> (\<^verbatim>\<open>_cash\<close> is \<open>u_cash\<close>), and
  the class constant \<^verbatim>\<open>_GRANULARITIES\<close> is \<open>GRANULARITIES\<close>.
\<close>

subsection \<open>Python values\<close>

text \<open>
  The exceptions the module raises or catches. \<open>Exception msg\<close> is a plain
  \<^verbatim>\<open>Exception(msg)\<close>, and also stands for any other subclass of \<^verbatim>\<open>Exception\<close>
  that the broker client may raise.
\<close>

datatype exn = Exception string | KeyError | AttributeError | IndexError

text \<open>
  The objects that travel through the store's queues and fields. Account figures are
  stored and returned only, never computed with, so a Python float is a \<open>real\<close> here.
\<close>

datatype pyval = PyNone | PyBool bool | PyFloat real | PyStr string | PyExc exn

text \<open>\<^verbatim>\<open>(msg, args, kwargs)\<close>, the tuple that \<^verbatim>\<open>put_notification\<close> appends.\<close>

type_synonym notification = "pyval \<times> pyval list \<times> (string \<times> pyval) list"

subsection \<open>The granularity table\<close>

text \<open>
  \<^verbatim>\<open>bt.TimeFrame\<close> belongs to the host framework; its members are taken as an
  enumeration. A compression is a Python int.
\<close>

datatype TimeFrame =
  Ticks | MicroSeconds | Seconds | Minutes | Days | Weeks | Months | Years | NoTimeFrame

text \<open>The dict literal of the class body, entry by entry, in the order written.\<close>

definition GRANULARITIES_items :: "((TimeFrame \<times> int) \<times> string) list" where
  "GRANULARITIES_items = [
     ((Seconds, 5), ''S5''),
     ((Seconds, 10), ''S10''),
     ((Seconds, 15), ''S15''),
     ((Seconds, 30), ''S30''),
     ((Minutes, 1), ''M1''),
     ((Minutes, 2), ''M3''),
     ((Minutes, 3), ''M3''),
     ((Minutes, 4), ''M4''),
     ((Minutes, 5), ''M5''),
     ((Minutes, 10), ''M10''),
     ((Minutes, 15), ''M15''),
     ((Minutes, 30), ''M30''),
     ((Minutes, 60), ''H1''),
     ((Minutes, 120), ''H2''),
     ((Minutes, 180), ''H3''),
     ((Minutes, 240), ''H4''),
     ((Minutes, 360), ''H6''),
     ((Minutes, 480), ''H8''),
     ((Days, 1), ''D''),
     ((Weeks, 1), ''W''),
     ((Months, 1), ''M'')]"

text \<open>
  A dict display evaluates its entries from left to right and a later entry replaces an
  earlier one with an equal key.
\<close>

definition setitem :: "('k \<rightharpoonup> 'v) \<Rightarrow> 'k \<times> 'v \<Rightarrow> ('k \<rightharpoonup> 'v)" where
  "setitem m kv = m(fst kv \<mapsto> snd kv)"

definition dict_of :: "('k \<times> 'v) list \<Rightarrow> ('k \<rightharpoonup> 'v)" where
  "dict_of kvs = foldl setitem Map.empty kvs"

definition GRANULARITIES :: "TimeFrame \<times> int \<rightharpoonup> string" where
  "GRANULARITIES = dict_of GRANULARITIES_items"

text \<open>
  \<^verbatim>\<open>self._GRANULARITIES.get((timeframe, compression), None)\<close>: Python's
  \<^verbatim>\<open>None\<close> is \<open>None\<close>, a code \<open>c\<close> is \<open>Some c\<close>. The method reads no field
  of the store.
\<close>

definition get_granularity :: "TimeFrame \<Rightarrow> int \<Rightarrow> string option" where
  "get_granularity timeframe compression = GRANULARITIES (timeframe, compression)"

subsection \<open>The store object\<close>

text \<open>
  \<^verbatim>\<open>params\<close>: the values the host framework's \<^verbatim>\<open>MetaParams\<close> leaves in
  \<^verbatim>\<open>self.p\<close>, with the types the class documents.
\<close>

record params =
  token :: string
  account :: string
  practice :: bool
  account_tmout :: real

definition default_params :: params where
  "default_params = \<lparr>token = [], account = [], practice = False, account_tmout = 10\<rparr>"

text \<open>\<^verbatim>\<open>v20.Context\<close>, the broker client's handle: the arguments it was built with.\<close>

record api_context =
  hostname :: string
  port :: nat
  ssl :: bool
  ctx_token :: string
  datetime_format :: string

definition OAPI_URL :: "string list" where
  "OAPI_URL = [''api-fxtrade.oanda.com'', ''api-fxpractice.oanda.com'']"

definition OAPI_STREAM_URL :: "string list" where
  "OAPI_STREAM_URL = [''stream-fxtrade.oanda.com'', ''stream-fxpractice.oanda.com'']"

text \<open>
  A data feed and a broker are objects of the host framework. The store reads
  \<^verbatim>\<open>data._env\<close> and calls \<^verbatim>\<open>broker.data_started(data)\<close>; the calls are kept in
  the field \<open>data_started_calls\<close>.
\<close>

record data_feed =
  dataname :: string
  feed_env :: pyval

datatype broker_ref = Broker nat

text \<open>A started daemon thread: its target, with the \<^verbatim>\<open>tmout\<close> it was given.\<close>

datatype thread =
  T_streaming_listener "real option" | T_streaming_events "real option" | T_account

text \<open>
  The fields of the instance. \<^verbatim>\<open>notifs\<close> is the deque; \<open>None\<close> in it is the mark
  that \<^verbatim>\<open>get_notifications\<close> appends. \<open>cash\<close> is the attribute \<^verbatim>\<open>self.cash\<close>,
  which does not exist (\<open>None\<close>) until \<^verbatim>\<open>start\<close> sets it; it is not \<^verbatim>\<open>_cash\<close>.
  \<open>q_account\<close> is the poller's queue, created by \<^verbatim>\<open>broker_threads\<close> before the
  poller starts. \<open>u_evt_acct\<close> is the flag of the \<^verbatim>\<open>threading.Event\<close>.
\<close>

record store =
  p :: params
  notifs :: "notification option list"
  u_cash :: pyval
  u_value :: pyval
  u_env :: pyval
  u_evt_acct :: bool
  broker :: "broker_ref option"
  datas :: "data_feed list"
  oapi :: api_context
  oapi_stream :: api_context
  cash :: "pyval option"
  q_account :: "pyval list"
  threads :: "thread list"
  data_started_calls :: "(broker_ref \<times> data_feed) list"

text \<open>\<^verbatim>\<open>__init__\<close>. \<^verbatim>\<open>int(self.p.practice)\<close> is 0 or 1.\<close>

definition OandaV20Store_init :: "params \<Rightarrow> store" where
  "OandaV20Store_init ps =
     \<lparr>p = ps,
      notifs = [],
      u_cash = PyFloat 0,
      u_value = PyFloat 0,
      u_env = PyNone,
      u_evt_acct = False,
      broker = None,
      datas = [],
      oapi = \<lparr>hostname = OAPI_URL ! (if practice ps then 1 else 0), port = 443, ssl = True,
              ctx_token = token ps, datetime_format = ''UNIX''\<rparr>,
      oapi_stream = \<lparr>hostname = OAPI_STREAM_URL ! (if practice ps then 1 else 0), port = 443,
              ssl = True, ctx_token = token ps, datetime_format = ''UNIX''\<rparr>,
      cash = None,
      q_account = [],
      threads = [],
      data_started_calls = []\<rparr>"

subsection \<open>The singleton metaclass\<close>

text \<open>
  The class object: \<^verbatim>\<open>cls._singleton\<close> and the instances constructed so far. An
  instance is known by its reference, its index in \<open>instances\<close>, so that "the same
  instance" is equality of references. \<^verbatim>\<open>MetaSingleton.__init__\<close> sets
  \<^verbatim>\<open>_singleton\<close> to \<^verbatim>\<open>None\<close>.
\<close>

type_synonym ref = nat

record class_state =
  u_singleton :: "ref option"
  instances :: "store list"

definition MetaSingleton_init :: class_state where
  "MetaSingleton_init = \<lparr>u_singleton = None, instances = []\<rparr>"

text \<open>
  \<^verbatim>\<open>MetaSingleton.__call__\<close>. The call to the parent metaclass builds the instance
  from the parameters of this call and runs \<^verbatim>\<open>__init__\<close>. The result is
  \<^verbatim>\<open>cls._singleton\<close> as it then stands.
\<close>

definition MetaSingleton_call :: "params \<Rightarrow> class_state \<Rightarrow> ref option \<times> class_state" where
  "MetaSingleton_call kwargs cls =
     (let cls1 = (if u_singleton cls = None
                  then cls\<lparr>instances := instances cls @ [OandaV20Store_init kwargs],
                           u_singleton := Some (length (instances cls))\<rparr>
                  else cls)
      in (u_singleton cls1, cls1))"

text \<open>Constructor calls one after the other: the references returned and the class.\<close>

fun construct_all :: "params list \<Rightarrow> class_state \<Rightarrow> ref option list \<times> class_state" where
  "construct_all [] cls = ([], cls)"
| "construct_all (kwargs # rest) cls =
     (case MetaSingleton_call kwargs cls of
        (r, cls1) \<Rightarrow> (case construct_all rest cls1 of (rs, cls2) \<Rightarrow> (r # rs, cls2)))"

subsection \<open>Methods that are not implemented\<close>

text \<open>Each body is \<^verbatim>\<open>raise Exception("Not implemented")\<close>, whatever the arguments.\<close>

definition stop :: "store \<Rightarrow> (exn + pyval) \<times> store" where
  "stop s = (Inl (Exception ''Not implemented''), s)"

definition get_positions :: "store \<Rightarrow> (exn + pyval) \<times> store" where
  "get_positions s = (Inl (Exception ''Not implemented''), s)"

definition get_instrument :: "pyval \<Rightarrow> store \<Rightarrow> (exn + pyval) \<times> store" where
  "get_instrument a_dataname s = (Inl (Exception ''Not implemented''), s)"

definition candles ::
  "pyval \<Rightarrow> pyval \<Rightarrow> pyval \<Rightarrow> pyval \<Rightarrow> pyval \<Rightarrow> pyval \<Rightarrow> pyval \<Rightarrow> store
   \<Rightarrow> (exn + pyval) \<times> store" where
  "candles a_dataname dtbegin dtend timeframe compression candleFormat includeFirst s =
     (Inl (Exception ''Not implemented''), s)"

definition streaming_prices :: "pyval \<Rightarrow> pyval \<Rightarrow> store \<Rightarrow> (exn + pyval) \<times> store" where
  "streaming_prices a_dataname tmout s = (Inl (Exception ''Not implemented''), s)"

definition order_create ::
  "pyval \<Rightarrow> pyval \<Rightarrow> pyval \<Rightarrow> (string \<times> pyval) list \<Rightarrow> store \<Rightarrow> (exn + pyval) \<times> store" where
  "order_create order stopside takeside kwargs s = (Inl (Exception ''Not implemented''), s)"

definition order_cancel :: "pyval \<Rightarrow> store \<Rightarrow> (exn + pyval) \<times> store" where
  "order_cancel order s = (Inl (Exception ''Not implemented''), s)"

subsection \<open>Cash and value\<close>

definition get_cash :: "store \<Rightarrow> pyval" where
  "get_cash s = u_cash s"

definition get_value :: "store \<Rightarrow> pyval" where
  "get_value s = u_value s"

subsection \<open>Notifications\<close>

definition put_notification ::
  "pyval \<Rightarrow> pyval list \<Rightarrow> (string \<times> pyval) list \<Rightarrow> store \<Rightarrow> store" where
  "put_notification msg args kwargs s = s\<lparr>notifs := notifs s @ [Some (msg, args, kwargs)]\<rparr>"

text \<open>
  \<^verbatim>\<open>[x for x in iter(self.notifs.popleft, None)]\<close>: \<^verbatim>\<open>popleft\<close> is called until it
  returns \<^verbatim>\<open>None\<close>, and raises \<^verbatim>\<open>IndexError\<close> on an empty deque, which ends the
  call with the popped items lost. Other threads may append while the loop runs: \<open>sched\<close>
  lists what they append, its first element before the first \<^verbatim>\<open>popleft\<close>, the next
  before the second, and so on. What is left of \<open>sched\<close> when the loop ends is appended
  before the call returns.
\<close>

function popleft_until_None ::
  "notification list list \<Rightarrow> notification option list
   \<Rightarrow> (exn + notification list) \<times> notification option list" where
  "popleft_until_None sched q =
     (case q @ map Some (case sched of [] \<Rightarrow> [] | b # _ \<Rightarrow> b) of
        [] \<Rightarrow> (Inl IndexError, map Some (concat (tl sched)))
      | None # q1 \<Rightarrow> (Inr [], q1 @ map Some (concat (tl sched)))
      | Some x # q1 \<Rightarrow>
          (case popleft_until_None (tl sched) q1 of
             (Inl e, q2) \<Rightarrow> (Inl e, q2)
           | (Inr xs, q2) \<Rightarrow> (Inr (x # xs), q2)))"
  by pat_completeness auto
termination
  by (relation "measure (\<lambda>(sched, q). length q + length (concat sched))")
    (auto split: list.splits dest!: arg_cong [where f = length])

text \<open>\<^verbatim>\<open>get_notifications\<close>: append the mark, then pop up to it.\<close>

definition get_notifications ::
  "notification list list \<Rightarrow> store \<Rightarrow> (exn + notification list) \<times> store" where
  "get_notifications sched s =
     (let s1 = s\<lparr>notifs := notifs s @ [None]\<rparr>
      in case popleft_until_None sched (notifs s1) of
           (r, q) \<Rightarrow> (r, s1\<lparr>notifs := q\<rparr>))"

text \<open>Producers calling \<^verbatim>\<open>put_notification\<close> one after the other.\<close>

fun put_notifications :: "notification list \<Rightarrow> store \<Rightarrow> store" where
  "put_notifications [] s = s"
| "put_notifications ((msg, args, kwargs) # ns) s =
     put_notifications ns (put_notification msg args kwargs s)"

subsection \<open>Starting the store\<close>

text \<open>
  \<^verbatim>\<open>streaming_events\<close> makes a fresh queue, starts the two streaming threads and
  returns the queue.
\<close>

definition streaming_events :: "real option \<Rightarrow> store \<Rightarrow> pyval list \<times> store" where
  "streaming_events tmout s =
     ([], s\<lparr>threads := threads s @ [T_streaming_listener tmout, T_streaming_events tmout]\<rparr>)"

text \<open>
  \<^verbatim>\<open>broker_threads\<close> makes the poller's queue with \<^verbatim>\<open>True\<close> in it and starts the
  poller. The final \<^verbatim>\<open>self._evt_acct.wait(self.p.account_tmout)\<close> only reads the
  event; what the poller does to the store meanwhile is \<open>t_account\<close> below.
\<close>

definition broker_threads :: "store \<Rightarrow> store" where
  "broker_threads s = s\<lparr>q_account := [PyBool True], threads := threads s @ [T_account]\<rparr>"

definition start :: "data_feed option \<Rightarrow> broker_ref option \<Rightarrow> store \<Rightarrow> store" where
  "start data a_broker s =
     (case data of
        None \<Rightarrow>
          (case a_broker of
             None \<Rightarrow> s\<lparr>cash := Some PyNone\<rparr>
           | Some b \<Rightarrow> broker_threads (snd (streaming_events None (s\<lparr>broker := Some b\<rparr>))))
      | Some d \<Rightarrow>
          (let s1 = s\<lparr>u_env := feed_env d, datas := datas s @ [d]\<rparr>
           in case broker s1 of
                None \<Rightarrow> s1
              | Some b \<Rightarrow> s1\<lparr>data_started_calls := data_started_calls s1 @ [(b, d)]\<rparr>))"

subsection \<open>The account poller\<close>

text \<open>
  What the poller meets in one turn of its loop. \<open>arrivals\<close>: the messages other
  threads put on \<^verbatim>\<open>q_account\<close> before the \<^verbatim>\<open>get\<close> gives up. \<open>summary\<close>: the
  outcome of \<^verbatim>\<open>self.oapi.account.summary(...)\<close> followed by
  \<^verbatim>\<open>response.get('account')\<close>, an exception or the account object. The account
  object is the outcome of reading each of its two attributes.
\<close>

record accinfo =
  marginAvailable :: "exn + pyval"
  balance :: "exn + pyval"

record cycle =
  arrivals :: "pyval list"
  summary :: "exn + accinfo"

text \<open>
  \<^verbatim>\<open>self.q_account.get(timeout=...)\<close>: the oldest message, or \<open>None\<close> for
  \<^verbatim>\<open>queue.Empty\<close> when the wait times out on an empty queue.
\<close>

definition q_account_get :: "pyval list \<Rightarrow> store \<Rightarrow> pyval option \<times> store" where
  "q_account_get arr s =
     (case q_account s @ arr of
        [] \<Rightarrow> (None, s)
      | m # ms \<Rightarrow> (Some m, s\<lparr>q_account := ms\<rparr>))"

text \<open>
  The third \<^verbatim>\<open>try\<close> block: two assignments in a row, so an exception in the second
  read leaves the first assignment done. The result is the exception raised, if any.
\<close>

definition set_cash_value :: "accinfo \<Rightarrow> store \<Rightarrow> exn option \<times> store" where
  "set_cash_value acc s =
     (case marginAvailable acc of
        Inl e \<Rightarrow> (Some e, s)
      | Inr c \<Rightarrow>
          (case balance acc of
             Inl e \<Rightarrow> (Some e, s\<lparr>u_cash := c\<rparr>)
           | Inr v \<Rightarrow> (None, s\<lparr>u_cash := c, u_value := v\<rparr>)))"

text \<open>
  How one turn of the loop ends: \<open>Next\<close> (the body ran to its end, or hit
  \<^verbatim>\<open>continue\<close>), \<open>Break\<close>, or an exception that no handler of the body catches.
\<close>

datatype ctl = Next | Break | Raised exn

text \<open>
  The body of \<^verbatim>\<open>while True\<close> in \<^verbatim>\<open>_t_account\<close>. The third component lists the
  account ids for which the account summary was requested in this turn.
\<close>

definition t_account_body :: "cycle \<Rightarrow> store \<Rightarrow> ctl \<times> store \<times> string list" where
  "t_account_body c s =
     (case q_account_get (arrivals c) s of
        (Some PyNone, s1) \<Rightarrow> (Break, s1, [])
      | (_, s1) \<Rightarrow>
          (case summary c of
             Inl e \<Rightarrow> (Next, put_notification (PyExc e) [] [] s1, [account (p s1)])
           | Inr acc \<Rightarrow>
               (case set_cash_value acc s1 of
                  (None, s2) \<Rightarrow> (Next, s2\<lparr>u_evt_acct := True\<rparr>, [account (p s1)])
                | (Some KeyError, s2) \<Rightarrow> (Next, s2\<lparr>u_evt_acct := True\<rparr>, [account (p s1)])
                | (Some e, s2) \<Rightarrow> (Raised e, s2, [account (p s1)]))))"

text \<open>
  The thread: \<open>Running\<close> while it is in the loop, \<open>Exited\<close> after \<^verbatim>\<open>break\<close>,
  \<open>Died e\<close> when an exception left the loop.
\<close>

datatype thread_status = Running | Exited | Died exn

text \<open>
  \<^verbatim>\<open>_t_account\<close> through the turns of the loop that a finite run gives it. The loop
  has no bound of its own: when the turns are used up the thread is still \<open>Running\<close>.
\<close>

fun t_account :: "cycle list \<Rightarrow> store \<Rightarrow> thread_status \<times> store \<times> string list" where
  "t_account [] s = (Running, s, [])"
| "t_account (c # cs) s =
     (case t_account_body c s of
        (Break, s1, calls) \<Rightarrow> (Exited, s1, calls)
      | (Raised e, s1, calls) \<Rightarrow> (Died e, s1, calls)
      | (Next, s1, calls) \<Rightarrow>
          (case t_account cs s1 of (st, s2, calls2) \<Rightarrow> (st, s2, calls @ calls2)))"

subsection \<open>Facts about the table\<close>

lemma setitem_apply:
  "setitem m kv k = (if k = fst kv then Some (snd kv) else m k)"
  by (simp add: setitem_def)

lemma foldl_setitem_notin:
  "k \<notin> fst ` set kvs \<Longrightarrow> foldl setitem m0 kvs k = m0 k"
proof (induction kvs arbitrary: m0)
  case Nil
  show ?case by simp
next
  case (Cons a kvs)
  from Cons.prems have ne: "k \<noteq> fst a" and rest: "k \<notin> fst ` set kvs" by auto
  have "foldl setitem (setitem m0 a) kvs k = setitem m0 a k"
    by (rule Cons.IH [OF rest])
  also have "\<dots> = m0 k" using ne by (simp add: setitem_apply)
  finally show ?case by simp
qed

lemma foldl_setitem_distinct:
  "distinct (map fst kvs) \<Longrightarrow> (k, v) \<in> set kvs \<Longrightarrow> foldl setitem m0 kvs k = Some v"
proof (induction kvs arbitrary: m0)
  case Nil
  then show ?case by simp
next
  case (Cons a kvs)
  show ?case
  proof (cases "a = (k, v)")
    case True
    with Cons.prems have "k \<notin> fst ` set kvs" by auto
    then have "foldl setitem (setitem m0 a) kvs k = setitem m0 a k"
      by (rule foldl_setitem_notin)
    also have "\<dots> = Some v" using True by (simp add: setitem_apply)
    finally show ?thesis by simp
  next
    case False
    with Cons.prems have "distinct (map fst kvs)" and "(k, v) \<in> set kvs" by auto
    then have "foldl setitem (setitem m0 a) kvs k = Some v"
      by (rule Cons.IH)
    then show ?thesis by simp
  qed
qed

lemma GRANULARITIES_keys_distinct: "distinct (map fst GRANULARITIES_items)"
  by (simp add: GRANULARITIES_items_def)

lemma get_granularity_in_table:
  "(k, code) \<in> set GRANULARITIES_items \<Longrightarrow> get_granularity (fst k) (snd k) = Some code"
  unfolding get_granularity_def GRANULARITIES_def dict_of_def
  using foldl_setitem_distinct [OF GRANULARITIES_keys_distinct] by simp

lemma get_granularity_outside_table:
  "(timeframe, compression) \<notin> fst ` set GRANULARITIES_items \<Longrightarrow>
   get_granularity timeframe compression = None"
  unfolding get_granularity_def GRANULARITIES_def dict_of_def
  by (simp add: foldl_setitem_notin)

text \<open>
  The codes tell the candle intervals apart, but for one entry: two keys share a code,
  and leaving \<open>(Minutes, 2)\<close> out no two keys do.
\<close>

lemma GRANULARITIES_codes:
  "\<not> distinct (map snd GRANULARITIES_items)"
  "distinct (map snd (filter (\<lambda>kv. fst kv \<noteq> (Minutes, 2)) GRANULARITIES_items))"
  by (simp_all add: GRANULARITIES_items_def)

text \<open>
  C1. The lookup returns the table's entry for a key of the table and \<open>None\<close> for
  any other pair (\<open>get_granularity_in_table\<close>, \<open>get_granularity_outside_table\<close>),
  but the entry for two-minute candles is not the code of two-minute candles:
  \<open>(Minutes, 2)\<close> is given \<open>M3\<close>, the code that \<open>(Minutes, 3)\<close> has, where
  every other entry of the table names its own interval.
\<close>

theorem get_granularity_minutes_2:
  "get_granularity Minutes 2 = Some ''M3'' \<and> get_granularity Minutes 3 = Some ''M3''
   \<and> get_granularity Minutes 2 \<noteq> Some ''M2''"
  by (simp add: get_granularity_def GRANULARITIES_def dict_of_def GRANULARITIES_items_def
      setitem_apply)

subsection \<open>Methods that are not implemented\<close>

text \<open>
  C2. Whatever the store and the arguments, each of \<^verbatim>\<open>stop\<close>,
  \<^verbatim>\<open>get_positions\<close>, \<^verbatim>\<open>get_instrument\<close>, \<^verbatim>\<open>candles\<close>,
  \<^verbatim>\<open>streaming_prices\<close>, \<^verbatim>\<open>order_create\<close> and \<^verbatim>\<open>order_cancel\<close> raises
  \<^verbatim>\<open>Exception("Not implemented")\<close> and leaves the store as it was.
\<close>

theorem not_implemented_always:
  "stop s = (Inl (Exception ''Not implemented''), s)
   \<and> get_positions s = (Inl (Exception ''Not implemented''), s)
   \<and> get_instrument a_dataname s = (Inl (Exception ''Not implemented''), s)
   \<and> candles a_dataname dtbegin dtend timeframe compression candleFormat includeFirst s
       = (Inl (Exception ''Not implemented''), s)
   \<and> streaming_prices a_dataname tmout s = (Inl (Exception ''Not implemented''), s)
   \<and> order_create order stopside takeside kwargs s = (Inl (Exception ''Not implemented''), s)
   \<and> order_cancel order s = (Inl (Exception ''Not implemented''), s)"
  by (simp add: stop_def get_positions_def get_instrument_def candles_def
      streaming_prices_def order_create_def order_cancel_def)

subsection \<open>The singleton\<close>

lemma construct_all_existing:
  "u_singleton cls = Some r \<Longrightarrow> construct_all ks cls = (replicate (length ks) (Some r), cls)"
  by (induction ks) (simp_all add: MetaSingleton_call_def)

text \<open>
  C8. In any sequence of constructor calls on the fresh class, the first call creates
  the instance from its own parameters, and every call, the first and each later one,
  returns the reference of that one instance: the later calls construct nothing and
  their parameters are not used.
\<close>

theorem singleton_first_call_wins:
  "construct_all (k # ks) MetaSingleton_init
   = (replicate (Suc (length ks)) (Some 0),
      \<lparr>u_singleton = Some 0, instances = [OandaV20Store_init k]\<rparr>)"
proof -
  have first: "MetaSingleton_call k MetaSingleton_init
    = (Some 0, \<lparr>u_singleton = Some 0, instances = [OandaV20Store_init k]\<rparr>)"
    by (simp add: MetaSingleton_call_def MetaSingleton_init_def)
  have "construct_all ks \<lparr>u_singleton = Some 0, instances = [OandaV20Store_init k]\<rparr>
    = (replicate (length ks) (Some 0),
       \<lparr>u_singleton = Some 0, instances = [OandaV20Store_init k]\<rparr>)"
    by (rule construct_all_existing) simp
  with first show ?thesis by simp
qed

subsection \<open>Starting the store\<close>

text \<open>
  C9. \<^verbatim>\<open>start()\<close> with neither a data feed nor a broker changes one thing, the
  attribute \<^verbatim>\<open>cash\<close>, which becomes \<^verbatim>\<open>None\<close>: no thread is started, and
  \<^verbatim>\<open>get_cash()\<close> and \<^verbatim>\<open>get_value()\<close> return what they returned before.
\<close>

theorem start_without_data_and_broker:
  "start None None s = s\<lparr>cash := Some PyNone\<rparr>
   \<and> threads (start None None s) = threads s
   \<and> get_cash (start None None s) = get_cash s
   \<and> get_value (start None None s) = get_value s
   \<and> cash (start None None s) = Some PyNone"
  by (simp add: start_def get_cash_def get_value_def)

text \<open>
  With a broker and no data feed, \<^verbatim>\<open>start\<close> registers the broker, starts the two
  streaming threads and the poller, and leaves \<^verbatim>\<open>True\<close> on the poller's queue.
\<close>

lemma start_broker:
  "start None (Some b) s
   = s\<lparr>broker := Some b,
        threads := threads s @ [T_streaming_listener None, T_streaming_events None, T_account],
        q_account := [PyBool True]\<rparr>"
  by (simp add: start_def broker_threads_def streaming_events_def)

text \<open>With a data feed the broker argument is not looked at.\<close>

lemma start_data_and_broker:
  "start (Some d) a_broker s = start (Some d) None s
   \<and> broker (start (Some d) a_broker s) = broker s
   \<and> threads (start (Some d) a_broker s) = threads s"
  by (simp add: start_def Let_def split: option.splits)

subsection \<open>Notifications\<close>

declare popleft_until_None.simps [simp del]

lemma popleft_until_None_mark:
  "popleft_until_None sched (map Some xs @ None # map Some ys)
   = (Inr xs, map Some (ys @ concat sched))"
proof (induction xs arbitrary: sched ys)
  case Nil
  show ?case
    by (subst popleft_until_None.simps) (simp split: list.splits)
next
  case (Cons x xs)
  have step: "map Some xs @ None # map Some ys @ map Some b
              = map Some xs @ None # map Some (ys @ b)" for b
    by simp
  show ?case
    by (subst popleft_until_None.simps)
      (simp add: step Cons.IH split: list.splits del: map_append)
qed

lemma put_notifications_frame:
  "put_notifications ns s = s\<lparr>notifs := notifs s @ map Some ns\<rparr>"
  by (induction ns s rule: put_notifications.induct) (simp_all add: put_notification_def)

lemma get_notifications_drains:
  "notifs s = map Some xs \<Longrightarrow>
   get_notifications sched s = (Inr xs, s\<lparr>notifs := map Some (concat sched)\<rparr>)"
  using popleft_until_None_mark [of sched xs "[]"]
  by (simp add: get_notifications_def)

lemma no_mark_map_Some: "None \<notin> set q \<Longrightarrow> map Some (map the q) = q"
  by (induction q) auto

text \<open>
  The deque holds no mark between calls: it is empty at first, and
  \<^verbatim>\<open>put_notification\<close> and \<^verbatim>\<open>get_notifications\<close> keep it free of marks.
\<close>

lemma notifs_without_mark:
  "None \<notin> set (notifs (OandaV20Store_init ps))"
  "None \<notin> set (notifs s) \<Longrightarrow> None \<notin> set (notifs (put_notification msg args kwargs s))"
  "None \<notin> set (notifs s) \<Longrightarrow> None \<notin> set (notifs (snd (get_notifications sched s)))"
proof -
  show "None \<notin> set (notifs (OandaV20Store_init ps))"
    by (simp add: OandaV20Store_init_def)
  show "None \<notin> set (notifs (put_notification msg args kwargs s))" if "None \<notin> set (notifs s)"
    using that by (simp add: put_notification_def)
  show "None \<notin> set (notifs (snd (get_notifications sched s)))" if "None \<notin> set (notifs s)"
  proof -
    from that have "notifs s = map Some (map the (notifs s))"
      by (rule no_mark_map_Some [symmetric])
    from get_notifications_drains [OF this] show ?thesis by auto
  qed
qed

text \<open>
  C3. On a deque of pending notifications, \<^verbatim>\<open>get_notifications\<close> returns exactly
  those that were appended before its mark, oldest first, and takes them off the deque;
  what other threads append after the mark (\<open>sched1\<close>) stays. A second call returns
  what came after the first call's mark, during the first call (\<open>sched1\<close>) and between
  the calls (\<open>between\<close>), and nothing that the first call returned.
\<close>

theorem get_notifications_fifo:
  assumes "notifs s = map Some pending"
  shows "get_notifications sched1 s = (Inr pending, s\<lparr>notifs := map Some (concat sched1)\<rparr>)
    \<and> get_notifications sched2 (put_notifications between (snd (get_notifications sched1 s)))
        = (Inr (concat sched1 @ between), s\<lparr>notifs := map Some (concat sched2)\<rparr>)"
proof -
  have first: "get_notifications sched1 s
      = (Inr pending, s\<lparr>notifs := map Some (concat sched1)\<rparr>)"
    by (rule get_notifications_drains [OF assms])
  have "notifs (put_notifications between (s\<lparr>notifs := map Some (concat sched1)\<rparr>))
        = map Some (concat sched1 @ between)"
    by (simp add: put_notifications_frame)
  from get_notifications_drains [OF this, of sched2] first show ?thesis
    by (simp add: put_notifications_frame)
qed

text \<open>
  Two notifications are pending, a third arrives while the first call pops, a fourth
  between the calls.
\<close>

theorem get_notifications_fifo_witness:
  "notifs (put_notifications [(PyStr ''a'', [], []), (PyStr ''b'', [], [])]
            (OandaV20Store_init default_params))
     = map Some [(PyStr ''a'', [], []), (PyStr ''b'', [], [])]
   \<and> fst (get_notifications [[(PyStr ''c'', [], [])]]
        (put_notifications [(PyStr ''a'', [], []), (PyStr ''b'', [], [])]
          (OandaV20Store_init default_params)))
     = Inr [(PyStr ''a'', [], []), (PyStr ''b'', [], [])]
   \<and> notifs (snd (get_notifications [[(PyStr ''c'', [], [])]]
        (put_notifications [(PyStr ''a'', [], []), (PyStr ''b'', [], [])]
          (OandaV20Store_init default_params))))
     = [Some (PyStr ''c'', [], [])]
   \<and> fst (get_notifications []
        (put_notifications [(PyStr ''d'', [], [])]
          (snd (get_notifications [[(PyStr ''c'', [], [])]]
            (put_notifications [(PyStr ''a'', [], []), (PyStr ''b'', [], [])]
              (OandaV20Store_init default_params))))))
     = Inr [(PyStr ''c'', [], []), (PyStr ''d'', [], [])]"
proof -
  let ?s = "put_notifications [(PyStr ''a'', [], []), (PyStr ''b'', [], [])]
            (OandaV20Store_init default_params)"
  have h: "notifs ?s = map Some [(PyStr ''a'', [], []), (PyStr ''b'', [], [])]"
    by (simp add: put_notification_def OandaV20Store_init_def)
  note t = get_notifications_fifo
    [OF h, of "[[(PyStr ''c'', [], [])]]" "[]" "[(PyStr ''d'', [], [])]"]
  from t have one: "get_notifications [[(PyStr ''c'', [], [])]] ?s
      = (Inr [(PyStr ''a'', [], []), (PyStr ''b'', [], [])],
         ?s\<lparr>notifs := map Some (concat [[(PyStr ''c'', [], [])]])\<rparr>)"
    by (rule conjunct1)
  from t [THEN conjunct2] have two: "fst (get_notifications []
        (put_notifications [(PyStr ''d'', [], [])]
          (snd (get_notifications [[(PyStr ''c'', [], [])]] ?s))))
      = Inr (concat [[(PyStr ''c'', [], [])]] @ [(PyStr ''d'', [], [])])"
    by (simp only: fst_conv)
  from one have a: "fst (get_notifications [[(PyStr ''c'', [], [])]] ?s)
      = Inr [(PyStr ''a'', [], []), (PyStr ''b'', [], [])]"
    by (simp only: fst_conv)
  from one have b: "notifs (snd (get_notifications [[(PyStr ''c'', [], [])]] ?s))
      = [Some (PyStr ''c'', [], [])]"
    by (simp only: snd_conv) simp
  from two have c: "fst (get_notifications []
        (put_notifications [(PyStr ''d'', [], [])]
          (snd (get_notifications [[(PyStr ''c'', [], [])]] ?s))))
      = Inr [(PyStr ''c'', [], []), (PyStr ''d'', [], [])]"
    by simp
  from h a b c show ?thesis by (intro conjI)
qed

subsection \<open>The account poller\<close>

lemma q_account_get_frame:
  "snd (q_account_get arr s) = s\<lparr>q_account := tl (q_account s @ arr)\<rparr>"
  by (cases "q_account s @ arr") (auto simp: q_account_get_def)

lemma q_account_get_msg:
  "fst (q_account_get arr s) = (case q_account s @ arr of [] \<Rightarrow> None | m # _ \<Rightarrow> Some m)"
  by (simp add: q_account_get_def split: list.splits)

lemma set_cash_value_raised:
  "fst (set_cash_value acc s) = fst (set_cash_value acc t)"
  by (simp add: set_cash_value_def split: sum.splits)

lemma t_account_body_Break:
  "fst (q_account_get (arrivals c) s) = Some PyNone \<Longrightarrow>
   t_account_body c s = (Break, snd (q_account_get (arrivals c) s), [])"
  by (cases "q_account_get (arrivals c) s") (simp add: t_account_body_def)

lemma t_account_body_fetch:
  "fst (q_account_get (arrivals c) s) \<noteq> Some PyNone \<Longrightarrow>
   t_account_body c s =
     (case summary c of
        Inl e \<Rightarrow> (Next, put_notification (PyExc e) [] [] (snd (q_account_get (arrivals c) s)),
                  [account (p s)])
      | Inr acc \<Rightarrow>
          (case set_cash_value acc (snd (q_account_get (arrivals c) s)) of
             (None, s2) \<Rightarrow> (Next, s2\<lparr>u_evt_acct := True\<rparr>, [account (p s)])
           | (Some KeyError, s2) \<Rightarrow> (Next, s2\<lparr>u_evt_acct := True\<rparr>, [account (p s)])
           | (Some e, s2) \<Rightarrow> (Raised e, s2, [account (p s)])))"
  by (cases "q_account_get (arrivals c) s")
    (auto simp: t_account_body_def q_account_get_def
      split: option.splits pyval.splits sum.splits list.splits exn.splits prod.splits)

lemma t_account_body_calls:
  "fst (q_account_get (arrivals c) s) \<noteq> Some PyNone \<Longrightarrow>
   snd (snd (t_account_body c s)) = [account (p s)]"
  by (simp add: t_account_body_fetch split: sum.splits prod.splits option.splits exn.splits)

lemma t_account_body_p:
  "p (fst (snd (t_account_body c s))) = p s"
  by (cases "q_account_get (arrivals c) s")
    (auto simp: t_account_body_def q_account_get_def put_notification_def set_cash_value_def
      split: option.splits pyval.splits sum.splits list.splits exn.splits prod.splits)

lemma t_account_first_call:
  assumes "fst (q_account_get (arrivals c) s) \<noteq> Some PyNone"
  shows "\<exists>calls. snd (snd (t_account (c # cs) s)) = account (p s) # calls"
proof -
  obtain ctl s1 calls where b: "t_account_body c s = (ctl, s1, calls)"
    by (cases "t_account_body c s") auto
  with t_account_body_calls [OF assms] have calls: "calls = [account (p s)]" by simp
  show ?thesis
    by (cases ctl) (auto simp: b calls split: prod.splits)
qed

text \<open>
  C4. In a turn of the poller's loop in which the account summary is requested and the
  request raises \<open>e\<close>, the exception is caught and appended to the notifications
  as \<^verbatim>\<open>(e, (), {})\<close>; \<^verbatim>\<open>_cash\<close>, \<^verbatim>\<open>_value\<close> and the ready event are
  left as they were; the loop goes on with the next turn, and that turn requests the
  account summary again unless it takes \<^verbatim>\<open>None\<close> from the queue.
\<close>

theorem t_account_fetch_error:
  assumes "fst (q_account_get (arrivals c) s) \<noteq> Some PyNone"
    and "summary c = Inl e"
    and "s1 = put_notification (PyExc e) [] [] (snd (q_account_get (arrivals c) s))"
  shows "t_account_body c s = (Next, s1, [account (p s)])
    \<and> notifs s1 = notifs s @ [Some (PyExc e, [], [])]
    \<and> get_cash s1 = get_cash s \<and> get_value s1 = get_value s
    \<and> u_evt_acct s1 = u_evt_acct s
    \<and> t_account (c # cs) s
        = (case t_account cs s1 of (st, s2, calls) \<Rightarrow> (st, s2, account (p s) # calls))
    \<and> (fst (q_account_get (arrivals c') s1) \<noteq> Some PyNone \<longrightarrow>
        (\<exists>calls. snd (snd (t_account (c # c' # cs) s)) = account (p s) # account (p s) # calls))"
proof -
  have body: "t_account_body c s = (Next, s1, [account (p s)])"
    using assms by (simp add: t_account_body_fetch)
  have fields: "notifs s1 = notifs s @ [Some (PyExc e, [], [])]"
    "get_cash s1 = get_cash s" "get_value s1 = get_value s" "u_evt_acct s1 = u_evt_acct s"
    "p s1 = p s"
    using assms(3)
    by (simp_all add: put_notification_def q_account_get_frame get_cash_def get_value_def)
  have loop: "t_account (c # cs) s
        = (case t_account cs s1 of (st, s2, calls) \<Rightarrow> (st, s2, account (p s) # calls))" for cs
    by (simp add: body)
  have nxt: "\<exists>calls. snd (snd (t_account (c # c' # cs) s)) = account (p s) # account (p s) # calls"
    if "fst (q_account_get (arrivals c') s1) \<noteq> Some PyNone"
  proof -
    from t_account_first_call [OF that, of cs] obtain calls
      where "snd (snd (t_account (c' # cs) s1)) = account (p s1) # calls" by blast
    then obtain st s2 where r: "t_account (c' # cs) s1 = (st, s2, account (p s1) # calls)"
      by (cases "t_account (c' # cs) s1") auto
    have "t_account (c # c' # cs) s = (st, s2, account (p s) # account (p s1) # calls)"
      by (simp only: loop [of "c' # cs"] r prod.case)
    then show ?thesis by (simp add: fields)
  qed
  from body fields loop nxt show ?thesis by blast
qed

text \<open>
  The first two turns after \<^verbatim>\<open>start(broker=...)\<close>, both requests raising: the
  exception is queued and the summary is requested twice.
\<close>

theorem t_account_fetch_error_witness:
  "t_account_body \<lparr>arrivals = [], summary = Inl (Exception ''timeout'')\<rparr>
     (start None (Some (Broker 0)) (OandaV20Store_init default_params))
   = (Next,
      (start None (Some (Broker 0)) (OandaV20Store_init default_params))
        \<lparr>notifs := [Some (PyExc (Exception ''timeout''), [], [])], q_account := []\<rparr>,
      [[]])
   \<and> snd (snd (t_account
        [\<lparr>arrivals = [], summary = Inl (Exception ''timeout'')\<rparr>,
         \<lparr>arrivals = [], summary = Inl (Exception ''timeout'')\<rparr>]
        (start None (Some (Broker 0)) (OandaV20Store_init default_params)))) = [[], []]"
proof -
  let ?c = "\<lparr>arrivals = [], summary = Inl (Exception ''timeout'')\<rparr>"
  let ?s = "start None (Some (Broker 0)) (OandaV20Store_init default_params)"
  have h1: "fst (q_account_get (arrivals ?c) ?s) \<noteq> Some PyNone"
    by (simp add: q_account_get_def start_def broker_threads_def streaming_events_def)
  have h2: "summary ?c = Inl (Exception ''timeout'')" by simp
  have q: "q_account ?s = [PyBool True]"
    by (simp add: start_def broker_threads_def streaming_events_def)
  show ?thesis
    using t_account_fetch_error [OF h1 h2 refl, of "[]" ?c]
    by (simp add: q_account_get_def put_notification_def q start_def broker_threads_def
        streaming_events_def OandaV20Store_init_def default_params_def t_account_body_def)
qed

text \<open>
  C5. After a turn of the loop in which the account summary is fetched and both
  attributes of the account can be read, \<^verbatim>\<open>get_cash()\<close> returns the account's
  \<^verbatim>\<open>marginAvailable\<close> and \<^verbatim>\<open>get_value()\<close> its \<^verbatim>\<open>balance\<close>; the thread
  is still in its loop.
\<close>

theorem t_account_fetch_success:
  assumes "fst (q_account_get (arrivals c) s) \<noteq> Some PyNone"
    and "summary c = Inr acc"
    and "marginAvailable acc = Inr m"
    and "balance acc = Inr b"
    and "s1 = (snd (q_account_get (arrivals c) s))\<lparr>u_cash := m, u_value := b, u_evt_acct := True\<rparr>"
  shows "t_account_body c s = (Next, s1, [account (p s)])
    \<and> t_account [c] s = (Running, s1, [account (p s)])
    \<and> get_cash s1 = m \<and> get_value s1 = b"
  using assms
  by (simp add: t_account_body_fetch set_cash_value_def get_cash_def get_value_def)

text \<open>
  The first turn after \<^verbatim>\<open>start(broker=...)\<close> with margin 100 and balance 250.
\<close>

theorem t_account_fetch_success_witness:
  "t_account [\<lparr>arrivals = [], summary = Inr \<lparr>marginAvailable = Inr (PyFloat 100), balance = Inr (PyFloat 250)\<rparr>\<rparr>]
     (start None (Some (Broker 0)) (OandaV20Store_init default_params))
   = (Running,
      (start None (Some (Broker 0)) (OandaV20Store_init default_params))
        \<lparr>u_cash := PyFloat 100, u_value := PyFloat 250, u_evt_acct := True, q_account := []\<rparr>,
      [[]])"
proof -
  let ?acc = "\<lparr>marginAvailable = Inr (PyFloat 100), balance = Inr (PyFloat 250)\<rparr>"
  let ?c = "\<lparr>arrivals = [], summary = Inr ?acc\<rparr>"
  let ?s = "start None (Some (Broker 0)) (OandaV20Store_init default_params)"
  have h1: "fst (q_account_get (arrivals ?c) ?s) \<noteq> Some PyNone"
    by (simp add: q_account_get_def start_def broker_threads_def streaming_events_def)
  have h2: "summary ?c = Inr ?acc" by simp
  have h3: "marginAvailable ?acc = Inr (PyFloat 100)" by simp
  have h4: "balance ?acc = Inr (PyFloat 250)" by simp
  show ?thesis
    using t_account_fetch_success [OF h1 h2 h3 h4 refl]
    by (simp add: q_account_get_def start_def broker_threads_def
        streaming_events_def OandaV20Store_init_def default_params_def)
qed

text \<open>
  C10, as the code has it. In a turn in which the account summary is fetched and
  reading the account raises \<^verbatim>\<open>KeyError\<close>, the exception is swallowed, the ready
  event is set all the same and \<^verbatim>\<open>_value\<close> keeps its value. \<^verbatim>\<open>_cash\<close> keeps its
  value when it is the read of \<^verbatim>\<open>marginAvailable\<close> that raises; when that read
  succeeds and the read of \<^verbatim>\<open>balance\<close> raises, \<^verbatim>\<open>_cash\<close> has already been
  set to \<^verbatim>\<open>marginAvailable\<close>. So the ready event can be set while
  \<^verbatim>\<open>_cash\<close> and \<^verbatim>\<open>_value\<close> still hold what they held before.
\<close>

theorem t_account_KeyError:
  assumes "fst (q_account_get (arrivals c) s) \<noteq> Some PyNone"
    and "summary c = Inr acc"
    and "fst (set_cash_value acc s) = Some KeyError"
    and "s1 = fst (snd (t_account_body c s))"
  shows "fst (t_account_body c s) = Next
    \<and> u_evt_acct s1
    \<and> get_value s1 = get_value s
    \<and> get_cash s1 = (case marginAvailable acc of Inl e \<Rightarrow> get_cash s | Inr m \<Rightarrow> m)"
  using assms
  by (auto simp: t_account_body_fetch set_cash_value_def get_cash_def get_value_def
      q_account_get_frame split: sum.splits)

text \<open>
  The first turn after \<^verbatim>\<open>start(broker=...)\<close> with \<^verbatim>\<open>marginAvailable\<close>
  raising \<^verbatim>\<open>KeyError\<close>: the event is set, cash and value are still 0.0.
\<close>

theorem t_account_KeyError_witness:
  "fst (t_account_body
     \<lparr>arrivals = [], summary = Inr \<lparr>marginAvailable = Inl KeyError, balance = Inr (PyFloat 250)\<rparr>\<rparr>
     (start None (Some (Broker 0)) (OandaV20Store_init default_params))) = Next
   \<and> u_evt_acct (fst (snd (t_account_body
     \<lparr>arrivals = [], summary = Inr \<lparr>marginAvailable = Inl KeyError, balance = Inr (PyFloat 250)\<rparr>\<rparr>
     (start None (Some (Broker 0)) (OandaV20Store_init default_params)))))
   \<and> get_cash (fst (snd (t_account_body
     \<lparr>arrivals = [], summary = Inr \<lparr>marginAvailable = Inl KeyError, balance = Inr (PyFloat 250)\<rparr>\<rparr>
     (start None (Some (Broker 0)) (OandaV20Store_init default_params))))) = PyFloat 0
   \<and> get_value (fst (snd (t_account_body
     \<lparr>arrivals = [], summary = Inr \<lparr>marginAvailable = Inl KeyError, balance = Inr (PyFloat 250)\<rparr>\<rparr>
     (start None (Some (Broker 0)) (OandaV20Store_init default_params))))) = PyFloat 0"
proof -
  let ?acc = "\<lparr>marginAvailable = Inl KeyError, balance = Inr (PyFloat 250)\<rparr>"
  let ?c = "\<lparr>arrivals = [], summary = Inr ?acc\<rparr>"
  let ?s = "start None (Some (Broker 0)) (OandaV20Store_init default_params)"
  have h1: "fst (q_account_get (arrivals ?c) ?s) \<noteq> Some PyNone"
    by (simp add: q_account_get_def start_def broker_threads_def streaming_events_def)
  have h2: "summary ?c = Inr ?acc" by simp
  have h3: "fst (set_cash_value ?acc ?s) = Some KeyError"
    by (simp add: set_cash_value_def)
  have c: "get_cash ?s = PyFloat 0" "get_value ?s = PyFloat 0"
    by (simp_all add: get_cash_def get_value_def start_def broker_threads_def
        streaming_events_def OandaV20Store_init_def)
  show ?thesis
    using t_account_KeyError [OF h1 h2 h3 refl] by (simp add: c)
qed

text \<open>
  Against C10 as it is written: \<^verbatim>\<open>marginAvailable\<close> is read, \<^verbatim>\<open>balance\<close>
  raises \<^verbatim>\<open>KeyError\<close>, and \<^verbatim>\<open>_cash\<close> does not keep its previous value.
\<close>

theorem t_account_KeyError_counterexample:
  "fst (set_cash_value \<lparr>marginAvailable = Inr (PyFloat 100), balance = Inl KeyError\<rparr>
        (start None (Some (Broker 0)) (OandaV20Store_init default_params))) = Some KeyError
   \<and> get_cash (fst (snd (t_account_body
        \<lparr>arrivals = [], summary = Inr \<lparr>marginAvailable = Inr (PyFloat 100), balance = Inl KeyError\<rparr>\<rparr>
        (start None (Some (Broker 0)) (OandaV20Store_init default_params)))))
      \<noteq> get_cash (start None (Some (Broker 0)) (OandaV20Store_init default_params))"
  by (simp add: t_account_body_def q_account_get_def set_cash_value_def start_def
      broker_threads_def streaming_events_def OandaV20Store_init_def get_cash_def)

lemma t_account_body_q_account_eq:
  "q_account (fst (snd (t_account_body c s))) = tl (q_account s @ arrivals c)"
proof -
  have "q_account (fst (snd (t_account_body c s)))
        = q_account (snd (q_account_get (arrivals c) s))"
    by (cases "q_account_get (arrivals c) s")
      (simp add: t_account_body_def put_notification_def set_cash_value_def
        split: option.splits pyval.splits sum.splits exn.splits prod.splits)
  then show ?thesis by (simp add: q_account_get_frame)
qed

lemma t_account_body_q_account:
  "set (q_account (fst (snd (t_account_body c s)))) \<subseteq> set (q_account s) \<union> set (arrivals c)"
proof
  fix m
  assume "m \<in> set (q_account (fst (snd (t_account_body c s))))"
  then have "m \<in> set (tl (q_account s @ arrivals c))"
    by (simp only: t_account_body_q_account_eq)
  then have "m \<in> set (q_account s @ arrivals c)"
    by (cases "q_account s @ arrivals c") auto
  then show "m \<in> set (q_account s) \<union> set (arrivals c)" by simp
qed

lemma q_account_get_no_None:
  assumes "PyNone \<notin> set (q_account s)" and "PyNone \<notin> set arr"
  shows "fst (q_account_get arr s) \<noteq> Some PyNone"
proof
  assume "fst (q_account_get arr s) = Some PyNone"
  then obtain ms where "q_account s @ arr = PyNone # ms"
    by (auto simp: q_account_get_msg split: list.splits)
  then have "set (q_account s @ arr) = set (PyNone # ms)" by (simp only:)
  then have "PyNone \<in> set (q_account s @ arr)" by simp
  with assms show False by simp
qed

lemma t_account_body_no_Break:
  assumes "PyNone \<notin> set (q_account s)" and "PyNone \<notin> set (arrivals c)"
  shows "fst (t_account_body c s) \<noteq> Break"
  using q_account_get_no_None [OF assms]
  by (simp add: t_account_body_fetch split: sum.splits prod.splits option.splits exn.splits)

lemma t_account_body_Next:
  assumes "PyNone \<notin> set (q_account s)" and "PyNone \<notin> set (arrivals c)"
    and "\<forall>acc. summary c = Inr acc \<longrightarrow> fst (set_cash_value acc t) \<in> {None, Some KeyError}"
  shows "fst (t_account_body c s) = Next"
proof (cases "summary c")
  case (Inl e)
  with q_account_get_no_None [OF assms(1,2)] show ?thesis
    by (simp add: t_account_body_fetch)
next
  case (Inr acc)
  with assms(3) have "fst (set_cash_value acc t) \<in> {None, Some KeyError}" by simp
  moreover have "fst (set_cash_value acc (snd (q_account_get (arrivals c) s)))
      = fst (set_cash_value acc t)"
    by (rule set_cash_value_raised)
  ultimately
  have "fst (set_cash_value acc (snd (q_account_get (arrivals c) s))) \<in> {None, Some KeyError}"
    by simp
  with Inr q_account_get_no_None [OF assms(1,2)] show ?thesis
    by (auto simp: t_account_body_fetch split: prod.splits)
qed

lemma t_account_not_Exited:
  "PyNone \<notin> set (q_account s) \<Longrightarrow> \<forall>c\<in>set cs. PyNone \<notin> set (arrivals c) \<Longrightarrow>
   fst (t_account cs s) \<noteq> Exited"
proof (induction cs arbitrary: s)
  case Nil
  show ?case by simp
next
  case (Cons c cs)
  obtain ctl s1 calls where b: "t_account_body c s = (ctl, s1, calls)"
    by (cases "t_account_body c s") auto
  from Cons.prems have nb: "ctl \<noteq> Break"
    using t_account_body_no_Break [of s c] by (simp add: b)
  from Cons.prems t_account_body_q_account [of c s] have "PyNone \<notin> set (q_account s1)"
    by (auto simp: b)
  with Cons have "fst (t_account cs s1) \<noteq> Exited" by simp
  with nb show ?case by (cases ctl) (auto simp: b split: prod.splits)
qed

lemma t_account_Running:
  "PyNone \<notin> set (q_account s) \<Longrightarrow> \<forall>c\<in>set cs. PyNone \<notin> set (arrivals c) \<Longrightarrow>
   \<forall>c\<in>set cs. \<forall>acc. summary c = Inr acc \<longrightarrow> fst (set_cash_value acc t) \<in> {None, Some KeyError} \<Longrightarrow>
   fst (t_account cs s) = Running"
proof (induction cs arbitrary: s)
  case Nil
  show ?case by simp
next
  case (Cons c cs)
  obtain ctl s1 calls where b: "t_account_body c s = (ctl, s1, calls)"
    by (cases "t_account_body c s") auto
  from Cons.prems have nb: "ctl = Next"
    using t_account_body_Next [of s c t] by (simp add: b)
  from Cons.prems t_account_body_q_account [of c s] have "PyNone \<notin> set (q_account s1)"
    by (auto simp: b)
  with Cons have "fst (t_account cs s1) = Running" by simp
  with nb show ?case by (auto simp: b split: prod.splits)
qed

text \<open>
  C7, as the code has it. \<^verbatim>\<open>None\<close> on the poller's queue is the one message that
  ends the loop (\<^verbatim>\<open>if msg is None: break\<close>). As long as no \<^verbatim>\<open>None\<close> is on the
  queue or put there, the thread does not leave the loop by \<^verbatim>\<open>break\<close>, whatever
  else arrives and whatever the requests return or raise; if moreover reading the
  account raises nothing but \<^verbatim>\<open>KeyError\<close>, the thread is still in the loop after
  any number of turns. The store itself puts only \<^verbatim>\<open>True\<close> on the queue.
\<close>

theorem t_account_ends_only_on_None:
  "(PyNone \<notin> set (q_account s) \<and> (\<forall>c\<in>set cs. PyNone \<notin> set (arrivals c))
      \<longrightarrow> fst (t_account cs s) \<noteq> Exited)
   \<and> (PyNone \<notin> set (q_account s) \<and> (\<forall>c\<in>set cs. PyNone \<notin> set (arrivals c))
       \<and> (\<forall>c\<in>set cs. \<forall>acc. summary c = Inr acc \<longrightarrow>
             fst (set_cash_value acc s) \<in> {None, Some KeyError})
      \<longrightarrow> fst (t_account cs s) = Running)
   \<and> q_account (broker_threads s) = [PyBool True]"
  using t_account_not_Exited [of s cs] t_account_Running [of s cs s]
  by (simp add: broker_threads_def)

text \<open>
  Two turns after \<^verbatim>\<open>start(broker=...)\<close>, a failed request, then another
  \<^verbatim>\<open>True\<close> on the queue and a \<^verbatim>\<open>KeyError\<close>: the thread is still running.
\<close>

theorem t_account_ends_only_on_None_witness:
  "fst (t_account
     [\<lparr>arrivals = [], summary = Inl (Exception ''timeout'')\<rparr>,
      \<lparr>arrivals = [PyBool True], summary = Inr \<lparr>marginAvailable = Inr (PyFloat 100), balance = Inl KeyError\<rparr>\<rparr>]
     (start None (Some (Broker 0)) (OandaV20Store_init default_params))) = Running"
proof -
  let ?cs = "[\<lparr>arrivals = [], summary = Inl (Exception ''timeout'')\<rparr>,
      \<lparr>arrivals = [PyBool True], summary = Inr \<lparr>marginAvailable = Inr (PyFloat 100), balance = Inl KeyError\<rparr>\<rparr>]"
  let ?s = "start None (Some (Broker 0)) (OandaV20Store_init default_params)"
  have q: "q_account ?s = [PyBool True]"
    by (simp add: start_def broker_threads_def streaming_events_def)
  show ?thesis
    using t_account_ends_only_on_None [of ?s ?cs]
    by (simp add: q set_cash_value_def)
qed

text \<open>
  Against C7 as it is written: \<^verbatim>\<open>None\<close> put on the queue ends the thread.
\<close>

theorem t_account_None_counterexample:
  "fst (t_account
     [\<lparr>arrivals = [], summary = Inr \<lparr>marginAvailable = Inr (PyFloat 100), balance = Inr (PyFloat 250)\<rparr>\<rparr>,
      \<lparr>arrivals = [PyNone], summary = Inr \<lparr>marginAvailable = Inr (PyFloat 100), balance = Inr (PyFloat 250)\<rparr>\<rparr>]
     (start None (Some (Broker 0)) (OandaV20Store_init default_params))) = Exited"
  by (simp add: t_account_body_def q_account_get_def set_cash_value_def start_def
      broker_threads_def streaming_events_def OandaV20Store_init_def)

text \<open>
  The ready event: a turn of the loop sets it exactly when the account summary was
  fetched and reading the account raised nothing, or \<^verbatim>\<open>KeyError\<close>. Nothing clears it.
\<close>

lemma t_account_body_evt:
  "u_evt_acct (fst (snd (t_account_body c s)))
   = (u_evt_acct s \<or>
      (fst (q_account_get (arrivals c) s) \<noteq> Some PyNone \<and>
       (\<exists>acc. summary c = Inr acc \<and> fst (set_cash_value acc s) \<in> {None, Some KeyError})))"
proof (cases "fst (q_account_get (arrivals c) s) = Some PyNone")
  case True
  then show ?thesis
    by (simp add: t_account_body_Break q_account_get_frame)
next
  case False
  show ?thesis
  proof (cases "summary c")
    case (Inl e)
    with False show ?thesis
      by (simp add: t_account_body_fetch put_notification_def q_account_get_frame)
  next
    case (Inr acc)
    with False show ?thesis
      by (auto simp: t_account_body_fetch set_cash_value_def q_account_get_frame
          split: sum.splits exn.splits)
  qed
qed

end
